theory Spec2Isabelle
  imports Complex_Main
begin

section \<open>Python values\<close>

text \<open>
  A Python \<open>str\<close> is modelled as the list of its Unicode code points, so that \<open>len\<close>
  is \<open>length\<close> and slicing is \<open>take\<close>. The fixed messages of the source, most of
  them Chinese, are written as code point lists; ASCII text is written with \<open>ascii\<close>.
  Python floats are modelled as exact rationals: rounding is outside the model.
\<close>

type_synonym pystr = "nat list"

definition ascii :: "string \<Rightarrow> pystr" where
  "ascii s = map of_char s"

definition newline :: pystr where
  "newline = [0x0A]"

text \<open>\<open>sep.join(xs)\<close>\<close>

fun join :: "pystr \<Rightarrow> pystr list \<Rightarrow> pystr" where
  "join sep [] = []"
| "join sep [x] = x"
| "join sep (x # y # ys) = x @ sep @ join sep (y # ys)"

text \<open>The values \<open>json.loads\<close> produces.\<close>

datatype json =
    JNull
  | JBool bool
  | JInt int
  | JFloat rat
  | JStr pystr
  | JArr "json list"
  | JObj "(pystr \<times> json) list"

text \<open>
  A Python \<open>dict\<close> keeps its keys in insertion order: storing under a key that is
  present replaces the value in place, a new key goes to the end.
\<close>

fun dict_set :: "('k \<times> 'v) list \<Rightarrow> 'k \<Rightarrow> 'v \<Rightarrow> ('k \<times> 'v) list" where
  "dict_set [] k v = [(k, v)]"
| "dict_set ((k', v') # d) k v = (if k' = k then (k, v) # d else (k', v') # dict_set d k v)"

definition dict_get :: "('k \<times> 'v) list \<Rightarrow> 'k \<Rightarrow> 'v \<Rightarrow> 'v" where
  "dict_get d k dflt = (case map_of d k of None \<Rightarrow> dflt | Some v \<Rightarrow> v)"

section \<open>The tool-calling client (src/cli/client.py)\<close>

subsection \<open>Fixed messages\<close>

definition msg_api_failed :: pystr where
  "msg_api_failed = [0x41, 0x50, 0x49, 0x8c03, 0x7528, 0x5931, 0x8d25, 0x3a, 0x20]"

definition msg_tool_failed :: pystr where
  "msg_tool_failed = [0x5de5, 0x5177, 0x8c03, 0x7528, 0x5931, 0x8d25, 0x3a, 0x20]"

definition msg_final_failed :: pystr where
  "msg_final_failed = [0x83b7, 0x53d6, 0x6700, 0x7ec8, 0x54cd, 0x5e94, 0x5931, 0x8d25]"

definition msg_tools_done :: pystr where
  "msg_tools_done = [0x5de5, 0x5177, 0x8c03, 0x7528, 0x5b8c, 0x6210, 0x3a, 0x20]"

definition msg_no_response :: pystr where
  "msg_no_response = [0x6ca1, 0x6709, 0x6536, 0x5230, 0x6709, 0x6548, 0x54cd, 0x5e94]"

definition unknown_id :: pystr where
  "unknown_id = ascii ''unknown_id''"

definition index_error :: pystr where
  "index_error = ascii ''list index out of range''"

subsection \<open>Data\<close>

text \<open>
  The \<open>arguments\<close> of a tool call are a string still to be parsed, or a value that is
  passed on as it is (\<open>isinstance(tool_args_str, str)\<close>); \<open>None\<close> is \<open>ArgVal JNull\<close>.
\<close>

datatype raw_args = ArgStr pystr | ArgVal json

text \<open>The \<open>'function'\<close> entry of a tool call in mapping form; both keys may be missing.\<close>

record function_dict =
  fn_name :: "pystr option"
  fn_arguments :: "raw_args option"

text \<open>
  The three shapes of a tool call: an object with a \<open>function\<close> attribute (its \<open>id\<close>
  attribute may be missing), a \<open>dict\<close> (its \<open>'function'\<close> and \<open>'id'\<close> keys may be
  missing), and anything else.
\<close>

datatype tool_call =
    ObjCall "pystr option" "pystr option" raw_args
  | DictCall "function_dict option" "pystr option"
  | OtherCall

text \<open>
  What an assistant message carries in \<open>tool_calls\<close>: the tool call object itself, or
  the mapping rebuilt from name, arguments and identifier.
\<close>

datatype carried_call = Raw tool_call | Rebuilt "pystr option" raw_args pystr

text \<open>
  The transcript entries: \<open>{"role": "user", "content"}\<close>,
  \<open>{"role": "assistant", "content", "tool_calls"}\<close> and
  \<open>{"role": "tool", "tool_call_id", "content"}\<close>.
\<close>

datatype chat_message =
    UserMsg pystr
  | AssistantMsg pystr "carried_call list"
  | ToolMsg pystr pystr

text \<open>
  The result of \<open>session.call_tool\<close>. An item of a list content carries \<open>str(item.text)\<close>
  when it has a \<open>text\<close> attribute and \<open>str(item)\<close> otherwise; a content that is no list
  carries \<open>str(result.content)\<close>, a result without content carries \<open>str(result)\<close>.
\<close>

datatype content_item = WithText pystr | WithoutText pystr

datatype call_tool_result =
    ContentList "content_item list"
  | ContentOther pystr
  | NoContent pystr

text \<open>
  The content of a message of the model: a list, each item given by
  \<open>item.get('text', str(item))\<close>, or anything else, given by \<open>str(content)\<close>.
\<close>

datatype message_content = ContentItems "pystr list" | ContentText pystr

record gw_message =
  content :: message_content
  tool_calls :: "tool_call list option"

record gw_response =
  status_code :: int
  message :: pystr
  choices :: "gw_message list"

record tool_descriptor =
  name :: pystr
  description :: pystr
  inputSchema :: json

text \<open>
  The collaborators of one query. A call that raises is \<open>Inl\<close> with \<open>str(e)\<close>. The
  tool host is asked with the position of the call in the batch, since the same request
  may be answered differently each time.
\<close>

record client_env =
  list_tools :: "pystr + tool_descriptor list"
  generation_call :: "chat_message list \<Rightarrow> tool_descriptor list \<Rightarrow> pystr + gw_response"
  json_loads :: "pystr \<Rightarrow> pystr + json"
  call_tool :: "nat \<Rightarrow> pystr option \<Rightarrow> json \<Rightarrow> pystr + call_tool_result"
  json_dumps :: "(pystr option \<times> pystr) list \<Rightarrow> pystr"

record loop_state =
  messages :: "chat_message list"
  tool_results :: "(pystr option \<times> pystr) list"
  final_text :: "pystr list"

subsection \<open>process_query\<close>

text \<open>Lines 129-139: name, arguments and identifier of a tool call, by shape.\<close>

fun call_fields :: "tool_call \<Rightarrow> (pystr option \<times> raw_args \<times> pystr) option" where
  "call_fields (ObjCall i n a) =
     Some (n, a, (case i of None \<Rightarrow> unknown_id | Some x \<Rightarrow> x))"
| "call_fields (DictCall f i) =
     Some ((case f of None \<Rightarrow> None | Some d \<Rightarrow> fn_name d),
           (case f of None \<Rightarrow> ArgVal JNull
            | Some d \<Rightarrow> (case fn_arguments d of None \<Rightarrow> ArgVal JNull | Some a \<Rightarrow> a)),
           (case i of None \<Rightarrow> unknown_id | Some x \<Rightarrow> x))"
| "call_fields OtherCall = None"

definition item_str :: "content_item \<Rightarrow> pystr" where
  "item_str it = (case it of WithText s \<Rightarrow> s | WithoutText s \<Rightarrow> s)"

text \<open>Lines 154-161.\<close>

definition result_content :: "call_tool_result \<Rightarrow> pystr" where
  "result_content r =
     (case r of
        ContentList its \<Rightarrow> join newline (map item_str its)
      | ContentOther s \<Rightarrow> s
      | NoContent s \<Rightarrow> s)"

text \<open>
  The body of the \<open>try\<close> of lines 144-164: parse the arguments, call the tool, marshal
  the content. \<open>Inl e\<close> is the exception caught at line 180, with \<open>e\<close> for \<open>str(e)\<close>.
\<close>

definition execute_call :: "client_env \<Rightarrow> nat \<Rightarrow> pystr option \<Rightarrow> raw_args \<Rightarrow> pystr + pystr" where
  "execute_call env k tool_name tool_args_str =
     (case (case tool_args_str of ArgStr s \<Rightarrow> json_loads env s | ArgVal v \<Rightarrow> Inr v) of
        Inl e \<Rightarrow> Inl e
      | Inr tool_args \<Rightarrow>
          (case call_tool env k tool_name tool_args of
             Inl e \<Rightarrow> Inl e
           | Inr result \<Rightarrow> Inr (result_content result)))"

text \<open>Line 170: what the assistant message carries.\<close>

definition carried :: "tool_call \<Rightarrow> pystr option \<Rightarrow> raw_args \<Rightarrow> pystr \<Rightarrow> carried_call" where
  "carried tc tool_name tool_args_str tool_id =
     (case tc of
        ObjCall i n a \<Rightarrow> Raw tc
      | _ \<Rightarrow> Rebuilt tool_name tool_args_str tool_id)"

text \<open>One iteration of the loop of lines 127-184, for the call at position \<open>k\<close>.\<close>

definition process_tool_call :: "client_env \<Rightarrow> nat \<Rightarrow> tool_call \<Rightarrow> loop_state \<Rightarrow> loop_state" where
  "process_tool_call env k tc st =
     (case call_fields tc of
        None \<Rightarrow> st
      | Some (tool_name, tool_args_str, tool_id) \<Rightarrow>
          (case execute_call env k tool_name tool_args_str of
             Inl e \<Rightarrow> st\<lparr>final_text := final_text st @ [msg_tool_failed @ e]\<rparr>
           | Inr c \<Rightarrow>
               st\<lparr>tool_results := tool_results st @ [(tool_name, c)],
                  messages := messages st @
                    [AssistantMsg [] [carried tc tool_name tool_args_str tool_id],
                     ToolMsg tool_id c]\<rparr>))"

fun process_tool_calls :: "client_env \<Rightarrow> nat \<Rightarrow> tool_call list \<Rightarrow> loop_state \<Rightarrow> loop_state" where
  "process_tool_calls env k [] st = st"
| "process_tool_calls env k (tc # tcs) st =
     process_tool_calls env (Suc k) tcs (process_tool_call env k tc st)"

text \<open>Lines 196-199 and 210-213.\<close>

definition content_text :: "message_content \<Rightarrow> pystr" where
  "content_text c = (case c of ContentItems xs \<Rightarrow> join newline xs | ContentText s \<Rightarrow> s)"

text \<open>
  Lines 188-205: what the final call adds to \<open>final_text\<close>. An exception inside the
  \<open>try\<close>, raised by the call or by \<open>choices[0]\<close> on an empty list, gives the listing.
\<close>

definition final_entry :: "client_env \<Rightarrow> tool_descriptor list \<Rightarrow> loop_state \<Rightarrow> pystr" where
  "final_entry env available_tools st =
     (case generation_call env (messages st) available_tools of
        Inl e \<Rightarrow> msg_tools_done @ json_dumps env (tool_results st)
      | Inr final_response \<Rightarrow>
          if status_code final_response = 200 then
            (case choices final_response of
               [] \<Rightarrow> msg_tools_done @ json_dumps env (tool_results st)
             | final_choice # _ \<Rightarrow> content_text (content final_choice))
          else msg_final_failed)"

text \<open>Line 215.\<close>

definition answer :: "pystr list \<Rightarrow> pystr" where
  "answer ft = (if ft \<noteq> [] then join newline ft else msg_no_response)"

text \<open>
  \<open>process_query\<close> returns the text, or \<open>Inl\<close> for an exception that leaves it, and
  next to it the transcripts sent to the model, one for each call of \<open>get_response\<close>.
\<close>

definition process_query :: "client_env \<Rightarrow> pystr \<Rightarrow> (pystr + pystr) \<times> chat_message list list" where
  "process_query env query =
     (let messages0 = [UserMsg query] in
      case list_tools env of
        Inl e \<Rightarrow> (Inl e, [])
      | Inr available_tools \<Rightarrow>
          (case generation_call env messages0 available_tools of
             Inl e \<Rightarrow> (Inl e, [messages0])
           | Inr response \<Rightarrow>
               if status_code response \<noteq> 200
               then (Inr (msg_api_failed @ message response), [messages0])
               else
                 (case choices response of
                    [] \<Rightarrow> (Inl index_error, [messages0])
                  | msg # _ \<Rightarrow>
                      (case tool_calls msg of
                         Some (tc # tcs) \<Rightarrow>
                           (let st = process_tool_calls env 0 (tc # tcs)
                                       \<lparr>messages = messages0, tool_results = [], final_text = []\<rparr>
                            in if tool_results st \<noteq> []
                               then (Inr (answer (final_text st @ [final_entry env available_tools st])),
                                     [messages0, messages st])
                               else (Inr (answer (final_text st)), [messages0]))
                       | _ \<Rightarrow> (Inr (answer [content_text (content msg)]), [messages0])))))"

subsection \<open>Outcome of one tool call\<close>

text \<open>
  The three ways an iteration of the loop can go: the call has an unknown shape and is
  skipped, the \<open>try\<close> raises, or the tool returns a content.
\<close>

datatype call_outcome =
    Skipped
  | Failed pystr
  | Succeeded "pystr option" raw_args pystr pystr

definition outcome :: "client_env \<Rightarrow> nat \<Rightarrow> tool_call \<Rightarrow> call_outcome" where
  "outcome env k tc =
     (case call_fields tc of
        None \<Rightarrow> Skipped
      | Some (tool_name, tool_args_str, tool_id) \<Rightarrow>
          (case execute_call env k tool_name tool_args_str of
             Inl e \<Rightarrow> Failed e
           | Inr c \<Rightarrow> Succeeded tool_name tool_args_str tool_id c))"

text \<open>The failure notes of a batch whose first call has position \<open>k\<close>, in call order.\<close>

fun failure_notes :: "client_env \<Rightarrow> nat \<Rightarrow> tool_call list \<Rightarrow> pystr list" where
  "failure_notes env k [] = []"
| "failure_notes env k (tc # tcs) =
     (case outcome env k tc of Failed e \<Rightarrow> [msg_tool_failed @ e] | _ \<Rightarrow> [])
       @ failure_notes env (Suc k) tcs"

text \<open>The \<open>{"call", "result"}\<close> entries of the calls that succeeded, in call order.\<close>

fun success_results :: "client_env \<Rightarrow> nat \<Rightarrow> tool_call list \<Rightarrow> (pystr option \<times> pystr) list" where
  "success_results env k [] = []"
| "success_results env k (tc # tcs) =
     (case outcome env k tc of Succeeded n a i c \<Rightarrow> [(n, c)] | _ \<Rightarrow> [])
       @ success_results env (Suc k) tcs"

text \<open>The pairs of messages of the calls that succeeded, in call order.\<close>

fun success_messages :: "client_env \<Rightarrow> nat \<Rightarrow> tool_call list \<Rightarrow> chat_message list" where
  "success_messages env k [] = []"
| "success_messages env k (tc # tcs) =
     (case outcome env k tc of
        Succeeded n a i c \<Rightarrow> [AssistantMsg [] [carried tc n a i], ToolMsg i c]
      | _ \<Rightarrow> [])
       @ success_messages env (Suc k) tcs"

text \<open>Name, arguments and identifier of the request an assistant message carries.\<close>

definition carried_fields :: "carried_call \<Rightarrow> (pystr option \<times> raw_args \<times> pystr) option" where
  "carried_fields cc = (case cc of Raw tc \<Rightarrow> call_fields tc | Rebuilt n a i \<Rightarrow> Some (n, a, i))"

section \<open>The model battle (src/model\_battle.py)\<close>

subsection \<open>Fixed messages\<close>

definition err_api_prefix :: pystr where
  "err_api_prefix = [0x41, 0x50, 0x49, 0x9519, 0x8bef, 0x20, 0x28, 0x72b6, 0x6001, 0x7801, 0x3a, 0x20]"

definition err_call_prefix :: pystr where
  "err_call_prefix = [0x8c03, 0x7528, 0x5931, 0x8d25, 0x3a, 0x20]"

definition msg_score_failed :: pystr where
  "msg_score_failed = [0x8bc4, 0x5206, 0x5931, 0x8d25, 0x3a, 0x20]"

definition msg_no_comment :: pystr where
  "msg_no_comment = [0x65e0, 0x8bc4, 0x4ef7]"

definition msg_score_parse :: pystr where
  "msg_score_parse = [0x8bc4, 0x5206, 0x89e3, 0x6790, 0x9519, 0x8bef, 0x3a, 0x20]"

definition msg_no_winner :: pystr where
  "msg_no_winner = [0x65e0, 0x83b7, 0x80dc, 0x8005]"

definition ellipsis :: pystr where
  "ellipsis = ascii ''...''"

subsection \<open>Data\<close>

datatype ModelType =
    DASHSCOPE_QWEN_AUDIO_TURBO_LATEST
  | DASHSCOPE_QWEN_VL_MAX
  | DASHSCOPE_QWEN
  | DASHSCOPE_QWEN_MAX

text \<open>\<open>model_type.value\<close>\<close>

fun model_value :: "ModelType \<Rightarrow> pystr" where
  "model_value DASHSCOPE_QWEN_AUDIO_TURBO_LATEST = ascii ''qwen-audio-turbo-latest''"
| "model_value DASHSCOPE_QWEN_VL_MAX = ascii ''qwen-vl-max''"
| "model_value DASHSCOPE_QWEN = ascii ''qwen-turbo''"
| "model_value DASHSCOPE_QWEN_MAX = ascii ''qwen-max''"

text \<open>The \<open>{"score", "comment"}\<close> mapping of \<open>score_response\<close>; a comment can be any value.\<close>

record score_result =
  score :: rat
  comment :: json

record ModelResponse =
  model_name :: pystr
  model_type :: ModelType
  response :: pystr
  response_time :: rat
  scores :: "(pystr \<times> score_result) list"
  token_count :: "nat option"
  error :: "pystr option"

text \<open>
  The field \<open>scores\<close> of the source's \<open>BattleRound\<close> is \<open>round_scores\<close> here, record
  fields sharing one name space.
\<close>

record BattleRound =
  round_number :: int
  responses :: "ModelResponse list"
  round_scores :: "(pystr \<times> rat) list"

record BattleResult =
  question :: pystr
  rounds :: "BattleRound list"
  final_scores :: "(pystr \<times> rat) list"
  final_winner :: pystr
  final_answer :: pystr
  timestamp :: pystr

datatype py_error = IndexError

text \<open>
  What \<open>Generation.call\<close> does: it raises (with \<open>str(e)\<close>), or returns a response
  with \<open>status_code\<close>, \<open>message\<close>, \<open>output.text\<close> and, if it has \<open>usage\<close>,
  \<open>usage.total_tokens\<close>.
\<close>

datatype generation =
    Raised pystr
  | Returned int pystr pystr "nat option"

text \<open>
  The collaborators of a battle. Each call of the model is given with the time it took,
  and is asked for by its place: the round and the position of the model in the list for
  an answer; the round, the position of the subject and the position of the scorer for a
  score. \<open>loads\<close> is \<open>json.loads\<close>, \<open>None\<close> for \<open>JSONDecodeError\<close>;
  \<open>decimal_digit\<close> is the table of the Unicode decimal digits (what \<open>\d\<close> matches and
  \<open>float\<close> reads) with their values; \<open>float_of_str\<close> is \<open>float\<close> on a string,
  \<open>float_type_error\<close> the text of its \<open>TypeError\<close>; \<open>strftime\<close> is the time stamp.
\<close>

record world =
  answer_call :: "int \<Rightarrow> nat \<Rightarrow> generation \<times> rat"
  scoring_call :: "int \<Rightarrow> nat \<Rightarrow> nat \<Rightarrow> generation \<times> rat"
  loads :: "pystr \<Rightarrow> json option"
  decimal_digit :: "nat \<Rightarrow> nat option"
  float_of_str :: "pystr \<Rightarrow> pystr + rat"
  float_type_error :: "json \<Rightarrow> pystr"
  strftime :: pystr

subsection \<open>call\_model\<close>

text \<open>\<open>str\<close> of an integer, for the status code in the error text.\<close>

fun str_nat :: "nat \<Rightarrow> pystr" where
  "str_nat n = (if n < 10 then [48 + n] else str_nat (n div 10) @ [48 + n mod 10])"

definition str_int :: "int \<Rightarrow> pystr" where
  "str_int i = (if i < 0 then 0x2D # str_nat (nat (- i)) else str_nat (nat i))"

text \<open>Lines 62-105, from what \<open>Generation.call\<close> did and the time it took.\<close>

definition call_model :: "ModelType \<Rightarrow> generation \<times> rat \<Rightarrow> ModelResponse" where
  "call_model mt g =
     (case fst g of
        Returned status msg text tokens \<Rightarrow>
          if status = 200
          then \<lparr>model_name = model_value mt, model_type = mt, response = text,
                response_time = snd g, scores = [], token_count = tokens, error = None\<rparr>
          else \<lparr>model_name = model_value mt, model_type = mt, response = [],
                response_time = snd g, scores = [], token_count = None,
                error = Some (err_api_prefix @ str_int status @ ascii ''): '' @ msg)\<rparr>
      | Raised e \<Rightarrow>
          \<lparr>model_name = model_value mt, model_type = mt, response = [],
           response_time = snd g, scores = [], token_count = None,
           error = Some (err_call_prefix @ e)\<rparr>)"

text \<open>The truth value of \<open>response.error\<close>: \<open>None\<close> and the empty string are false.\<close>

definition has_error :: "ModelResponse \<Rightarrow> bool" where
  "has_error r = (case error r of None \<Rightarrow> False | Some e \<Rightarrow> e \<noteq> [])"

subsection \<open>score\_response\<close>

definition is_digit :: "world \<Rightarrow> nat \<Rightarrow> bool" where
  "is_digit w c = (decimal_digit w c \<noteq> None)"

text \<open>
  The match of \<open>(\d+(?:\.\d+)?)\<close> at the start of a text that begins with a digit:
  the longest run of digits, and the digits after a point when a point and a digit
  follow the run.
\<close>

definition match_here :: "world \<Rightarrow> pystr \<Rightarrow> pystr \<times> pystr option" where
  "match_here w s =
     (let ds = takeWhile (is_digit w) s; rest = dropWhile (is_digit w) s
      in case rest of
           p # d # r \<Rightarrow>
             if p = 0x2E \<and> is_digit w d then (ds, Some (takeWhile (is_digit w) (d # r)))
             else (ds, None)
         | _ \<Rightarrow> (ds, None))"

text \<open>\<open>re.search\<close> with that pattern: the match at the leftmost place where one starts.\<close>

fun re_search :: "world \<Rightarrow> pystr \<Rightarrow> (pystr \<times> pystr option) option" where
  "re_search w [] = None"
| "re_search w (c # cs) =
     (if is_digit w c then Some (match_here w (c # cs)) else re_search w cs)"

definition digit_value :: "world \<Rightarrow> nat \<Rightarrow> nat" where
  "digit_value w c = (case decimal_digit w c of None \<Rightarrow> 0 | Some v \<Rightarrow> v)"

definition digits_value :: "world \<Rightarrow> pystr \<Rightarrow> nat" where
  "digits_value w ds = foldl (\<lambda>a c. 10 * a + digit_value w c) 0 ds"

text \<open>\<open>float(score_match.group(1))\<close>\<close>

definition float_of_match :: "world \<Rightarrow> pystr \<times> pystr option \<Rightarrow> rat" where
  "float_of_match w m =
     of_nat (digits_value w (fst m))
       + (case snd m of None \<Rightarrow> 0 | Some fs \<Rightarrow> of_nat (digits_value w fs) / 10 ^ length fs)"

text \<open>\<open>float\<close> on a value of \<open>json.loads\<close>; \<open>Inl\<close> is the text of the exception.\<close>

definition py_float :: "world \<Rightarrow> json \<Rightarrow> pystr + rat" where
  "py_float w v =
     (case v of
        JInt i \<Rightarrow> Inr (of_int i)
      | JFloat r \<Rightarrow> Inr r
      | JBool b \<Rightarrow> Inr (if b then 1 else 0)
      | JStr s \<Rightarrow> float_of_str w s
      | _ \<Rightarrow> Inl (float_type_error w v))"

definition type_name :: "json \<Rightarrow> pystr" where
  "type_name v =
     (case v of
        JNull \<Rightarrow> ascii ''NoneType''
      | JBool b \<Rightarrow> ascii ''bool''
      | JInt i \<Rightarrow> ascii ''int''
      | JFloat r \<Rightarrow> ascii ''float''
      | JStr s \<Rightarrow> ascii ''str''
      | JArr xs \<Rightarrow> ascii ''list''
      | JObj d \<Rightarrow> ascii ''dict'')"

text \<open>The text of the \<open>AttributeError\<close> of \<open>result.get\<close> on a value that is no \<open>dict\<close>.\<close>

definition no_get :: "json \<Rightarrow> pystr" where
  "no_get v = [0x27] @ type_name v @ [0x27] @ ascii '' object has no attribute '' @ [0x27] @ ascii ''get'' @ [0x27]"

text \<open>
  Lines 123-148, from what the scorer's call did. The scoring prompt, built from the
  question and the answer, goes to the model and does not show in the result otherwise.
\<close>

definition score_response :: "world \<Rightarrow> generation \<times> rat \<Rightarrow> ModelType \<Rightarrow> score_result" where
  "score_response w g scorer_model =
     (let scoring_response = call_model scorer_model g in
      if has_error scoring_response
      then \<lparr>score = 0,
            comment = JStr (msg_score_failed @ (case error scoring_response of None \<Rightarrow> [] | Some e \<Rightarrow> e))\<rparr>
      else
        (case loads w (response scoring_response) of
           Some (JObj d) \<Rightarrow>
             (case py_float w (dict_get d (ascii ''score'') (JInt 0)) of
                Inr f \<Rightarrow> \<lparr>score = f, comment = dict_get d (ascii ''comment'') (JStr msg_no_comment)\<rparr>
              | Inl e \<Rightarrow> \<lparr>score = 0, comment = JStr (msg_score_parse @ e)\<rparr>)
         | Some v \<Rightarrow> \<lparr>score = 0, comment = JStr (msg_score_parse @ no_get v)\<rparr>
         | None \<Rightarrow>
             \<lparr>score = (case re_search w (response scoring_response) of
                         Some m \<Rightarrow> float_of_match w m
                       | None \<Rightarrow> 0),
              comment = JStr (if length (response scoring_response) > 100
                              then take 100 (response scoring_response) @ ellipsis
                              else response scoring_response)\<rparr>))"

subsection \<open>battle\_round\<close>

text \<open>
  Lines 188-193, for the subject at position \<open>i\<close>: every model of the list but the one
  at position \<open>i\<close> scores it, and the result is stored under the scorer's name.
\<close>

definition score_subject :: "world \<Rightarrow> int \<Rightarrow> ModelType list \<Rightarrow> nat \<Rightarrow> (pystr \<times> score_result) list" where
  "score_subject w rn models i =
     fold (\<lambda>(j, scorer_model) d.
             if i \<noteq> j
             then dict_set d (model_value scorer_model)
                    (score_response w (scoring_call w rn i j) scorer_model)
             else d)
          (enumerate 0 models) []"

text \<open>The calls of \<open>score_response\<close> made for that subject: scorer and subject's name.\<close>

definition subject_calls :: "ModelType list \<Rightarrow> nat \<Rightarrow> ModelResponse \<Rightarrow> (ModelType \<times> pystr) list" where
  "subject_calls models i r =
     map (\<lambda>(j, scorer_model). (scorer_model, model_name r))
         (filter (\<lambda>(j, scorer_model). i \<noteq> j) (enumerate 0 models))"

text \<open>Lines 201-207: the score of one response in the round.\<close>

definition round_score :: "ModelResponse \<Rightarrow> rat" where
  "round_score r =
     (if \<not> has_error r \<and> scores r \<noteq> []
      then (let ss = map (\<lambda>(scorer, sr). score sr) (scores r)
            in if ss \<noteq> [] then sum_list ss / of_nat (length ss) else 0)
      else 0)"

text \<open>Lines 158-159: the answers of the models, in the order of the list.\<close>

definition answer_phase :: "world \<Rightarrow> int \<Rightarrow> ModelType list \<Rightarrow> ModelResponse list" where
  "answer_phase w rn models =
     map (\<lambda>(i, model). call_model model (answer_call w rn i)) (enumerate 0 models)"

text \<open>
  \<open>battle_round\<close> returns the round and, next to it, the scoring calls it made, in
  the order it made them.
\<close>

definition battle_round ::
  "world \<Rightarrow> int \<Rightarrow> pystr \<Rightarrow> ModelType list \<Rightarrow> BattleRound \<times> (ModelType \<times> pystr) list" where
  "battle_round w rn q models =
     (let answered = answer_phase w rn models;
          valid_responses = filter (\<lambda>r. \<not> has_error r) answered
      in if length valid_responses < 2
         then (\<lparr>round_number = rn, responses = answered,
                 round_scores = fold (\<lambda>r d. dict_set d (model_name r) 0) answered []\<rparr>, [])
         else
           (let scored = map (\<lambda>(i, r). if has_error r then r\<lparr>scores := []\<rparr>
                                         else r\<lparr>scores := score_subject w rn models i\<rparr>)
                             (enumerate 0 answered);
                calls = concat (map (\<lambda>(i, r). if has_error r then [] else subject_calls models i r)
                                    (enumerate 0 answered))
            in (\<lparr>round_number = rn, responses = scored,
                  round_scores = fold (\<lambda>r d. dict_set d (model_name r) (round_score r)) scored []\<rparr>,
                calls)))"

subsection \<open>battle\<close>

text \<open>\<open>max(xs, key=...)\<close> on a list \<open>x # xs\<close>: the first of the greatest.\<close>

fun py_max :: "('a \<Rightarrow> rat) \<Rightarrow> 'a \<Rightarrow> 'a list \<Rightarrow> 'a" where
  "py_max key best [] = best"
| "py_max key best (x # xs) = py_max key (if key best < key x then x else best) xs"

text \<open>Lines 248-253: the answer of the winner in one round.\<close>

fun winner_answer :: "pystr \<Rightarrow> ModelResponse list \<Rightarrow> pystr" where
  "winner_answer winner [] = []"
| "winner_answer winner (r # rs) =
     (if model_name r = winner \<and> \<not> has_error r then response r else winner_answer winner rs)"

text \<open>Lines 236-240.\<close>

definition total_score :: "BattleRound list \<Rightarrow> pystr \<Rightarrow> rat" where
  "total_score rs nm = sum_list (map (\<lambda>round_result. dict_get (round_scores round_result) nm 0) rs)"

definition battle :: "world \<Rightarrow> pystr \<Rightarrow> ModelType list \<Rightarrow> int \<Rightarrow> py_error + BattleResult" where
  "battle w q models num_rounds =
     (let rs = map (\<lambda>round_num. fst (battle_round w (int round_num + 1) q models)) [0..<nat num_rounds];
          fs = fold (\<lambda>model_type d. dict_set d (model_value model_type)
                                       (total_score rs (model_value model_type))) models [];
          winner = (case fs of [] \<Rightarrow> msg_no_winner | x # xs \<Rightarrow> fst (py_max snd x xs))
      in if winner \<noteq> msg_no_winner
         then (case rs of
                 [] \<Rightarrow> Inl IndexError
               | _ \<Rightarrow> Inr \<lparr>question = q, rounds = rs, final_scores = fs, final_winner = winner,
                           final_answer = winner_answer winner (responses (last rs)),
                           timestamp = strftime w\<rparr>)
         else Inr \<lparr>question = q, rounds = rs, final_scores = fs, final_winner = winner,
                   final_answer = [], timestamp = strftime w\<rparr>)"

subsection \<open>Example environments\<close>

text \<open>
  A first response of the model with status 200, one choice, the given content and the
  given tool calls.
\<close>

definition first_message :: "message_content \<Rightarrow> tool_call list option \<Rightarrow> gw_message" where
  "first_message c tcs = \<lparr>content = c, tool_calls = tcs\<rparr>"

definition first_response :: "message_content \<Rightarrow> tool_call list option \<Rightarrow> gw_response" where
  "first_response c tcs = \<lparr>status_code = 200, message = [], choices = [first_message c tcs]\<rparr>"

text \<open>
  An environment for the query \<open>q\<close>: the model answers the query with the first response
  above and every later transcript with \<open>final\<close>; no argument string parses; the tool host
  answers the call at position \<open>k\<close> with \<open>tool k\<close>.
\<close>

definition example_env ::
  "message_content \<Rightarrow> tool_call list option \<Rightarrow> (nat \<Rightarrow> pystr + call_tool_result)
     \<Rightarrow> (pystr + gw_response) \<Rightarrow> client_env" where
  "example_env c tcs tool final =
     \<lparr>list_tools = Inr [],
      generation_call =
        (\<lambda>msgs tools. if msgs = [UserMsg (ascii ''q'')] then Inr (first_response c tcs) else final),
      json_loads = (\<lambda>s. Inl (ascii ''bad json'')),
      call_tool = (\<lambda>k n a. tool k),
      json_dumps = (\<lambda>rs. ascii ''[...]'')\<rparr>"

definition server_error :: gw_response where
  "server_error = \<lparr>status_code = 500, message = ascii ''busy'', choices = []\<rparr>"


text \<open>The model answers every call with status 500.\<close>

definition busy_env :: client_env where
  "busy_env =
     \<lparr>list_tools = Inr [],
      generation_call = (\<lambda>msgs tools. Inr server_error),
      json_loads = (\<lambda>s. Inl (ascii ''bad json'')),
      call_tool = (\<lambda>k n a. Inl (ascii ''no session'')),
      json_dumps = (\<lambda>rs. ascii ''[...]'')\<rparr>"

text \<open>A call in mapping form whose arguments do not parse, and a call in object form.\<close>

definition read_call :: tool_call where
  "read_call =
     DictCall (Some \<lparr>fn_name = Some (ascii ''read''), fn_arguments = Some (ArgStr (ascii ''{''))\<rparr>)
              (Some (ascii ''c1''))"

definition run_call :: tool_call where
  "run_call = ObjCall (Some (ascii ''c2'')) (Some (ascii ''run'')) (ArgVal (JObj []))"

text \<open>The tool host raises on every call; the tool host answers every call.\<close>

definition tool_down :: "nat \<Rightarrow> pystr + call_tool_result" where
  "tool_down k = Inl (ascii ''boom'')"

definition tool_up :: "nat \<Rightarrow> pystr + call_tool_result" where
  "tool_up k = Inr (ContentOther (ascii ''done''))"

subsection \<open>Example worlds\<close>

text \<open>The ASCII part of the table of decimal digits.\<close>

definition ascii_digit :: "nat \<Rightarrow> nat option" where
  "ascii_digit c = (if 48 \<le> c \<and> c \<le> 57 then Some (c - 48) else None)"

text \<open>A call of the model that returns the text with status 200, and one that raises.\<close>

definition returned :: "pystr \<Rightarrow> generation \<times> rat" where
  "returned text = (Returned 200 [] text None, 1)"

definition timed_out :: "generation \<times> rat" where
  "timed_out = (Raised (ascii ''timeout''), 1)"

text \<open>A world with the given answers and scores, in which no text parses as JSON.\<close>

definition example_world ::
  "(int \<Rightarrow> nat \<Rightarrow> generation \<times> rat) \<Rightarrow> (int \<Rightarrow> nat \<Rightarrow> nat \<Rightarrow> generation \<times> rat) \<Rightarrow> world" where
  "example_world answers scorings =
     \<lparr>answer_call = answers, scoring_call = scorings, loads = (\<lambda>s. None),
      decimal_digit = ascii_digit, float_of_str = (\<lambda>s. Inl []),
      float_type_error = (\<lambda>v. []), strftime = ascii ''2025-01-01 00:00:00''\<rparr>"

text \<open>The model at position 1 raises on every call, as an answerer and as a scorer.\<close>

definition second_down_answers :: "int \<Rightarrow> nat \<Rightarrow> generation \<times> rat" where
  "second_down_answers rn i = (if i = 1 then timed_out else returned (ascii ''an answer''))"

definition second_down_scorings :: "int \<Rightarrow> nat \<Rightarrow> nat \<Rightarrow> generation \<times> rat" where
  "second_down_scorings rn i j = (if j = 1 then timed_out else returned (ascii ''Score: 80''))"

text \<open>Every model answers; every scorer gives 90.\<close>

definition all_up_answers :: "int \<Rightarrow> nat \<Rightarrow> generation \<times> rat" where
  "all_up_answers rn i = returned (ascii ''4'')"

definition all_up_scorings :: "int \<Rightarrow> nat \<Rightarrow> nat \<Rightarrow> generation \<times> rat" where
  "all_up_scorings rn i j = returned (ascii ''Score: 90'')"

text \<open>No model answers.\<close>

definition all_down_answers :: "int \<Rightarrow> nat \<Rightarrow> generation \<times> rat" where
  "all_down_answers rn i = timed_out"

section \<open>Properties\<close>


lemma process_tool_call_outcome:
  "process_tool_call env k tc st =
     (case outcome env k tc of
        Skipped \<Rightarrow> st
      | Failed e \<Rightarrow> st\<lparr>final_text := final_text st @ [msg_tool_failed @ e]\<rparr>
      | Succeeded n a i c \<Rightarrow>
          st\<lparr>tool_results := tool_results st @ [(n, c)],
             messages := messages st @ [AssistantMsg [] [carried tc n a i], ToolMsg i c]\<rparr>)"
  by (simp add: process_tool_call_def outcome_def split: option.splits sum.splits prod.splits)

lemma final_text_process_tool_calls:
  "final_text (process_tool_calls env k tcs st) = final_text st @ failure_notes env k tcs"
  by (induction tcs arbitrary: k st)
     (auto simp: process_tool_call_outcome split: call_outcome.splits)

lemma tool_results_process_tool_calls:
  "tool_results (process_tool_calls env k tcs st) = tool_results st @ success_results env k tcs"
  by (induction tcs arbitrary: k st)
     (auto simp: process_tool_call_outcome split: call_outcome.splits)

lemma messages_process_tool_calls:
  "messages (process_tool_calls env k tcs st) = messages st @ success_messages env k tcs"
  by (induction tcs arbitrary: k st)
     (auto simp: process_tool_call_outcome split: call_outcome.splits)



lemma msg_tool_failed_nonempty: "msg_tool_failed @ e \<noteq> []"
  by (simp add: msg_tool_failed_def)


lemma outcome_OtherCall: "outcome env k OtherCall = Skipped"
  by (simp add: outcome_def)

lemma failure_notes_all_other:
  "\<forall>tc\<in>set tcs. tc = OtherCall \<Longrightarrow> failure_notes env k tcs = []"
  by (induction tcs arbitrary: k) (simp_all add: outcome_OtherCall)

lemma success_results_all_other:
  "\<forall>tc\<in>set tcs. tc = OtherCall \<Longrightarrow> success_results env k tcs = []"
  by (induction tcs arbitrary: k) (simp_all add: outcome_OtherCall)

lemma process_query_batch:
  assumes "list_tools env = Inr tools"
    and "generation_call env [UserMsg q] tools = Inr r"
    and "status_code r = 200"
    and "choices r = m # ms"
    and "tool_calls m = Some tcs"
    and "tcs \<noteq> []"
  shows "process_query env q =
     (if success_results env 0 tcs \<noteq> []
      then (Inr (answer (failure_notes env 0 tcs @
                  [final_entry env tools
                     \<lparr>messages = UserMsg q # success_messages env 0 tcs,
                      tool_results = success_results env 0 tcs,
                      final_text = failure_notes env 0 tcs\<rparr>])),
            [[UserMsg q], UserMsg q # success_messages env 0 tcs])
      else (Inr (answer (failure_notes env 0 tcs)), [[UserMsg q]]))"
proof -
  let ?st = "process_tool_calls env 0 tcs \<lparr>messages = [UserMsg q], tool_results = [], final_text = []\<rparr>"
  have st: "?st = \<lparr>messages = UserMsg q # success_messages env 0 tcs,
                   tool_results = success_results env 0 tcs,
                   final_text = failure_notes env 0 tcs\<rparr>"
    by (rule loop_state.equality)
       (simp_all add: final_text_process_tool_calls tool_results_process_tool_calls
          messages_process_tool_calls)
  obtain tc tcs' where tcs: "tcs = tc # tcs'" using assms(6) by (cases tcs) auto
  have "process_query env q =
     (if tool_results ?st \<noteq> []
      then (Inr (answer (final_text ?st @ [final_entry env tools ?st])), [[UserMsg q], messages ?st])
      else (Inr (answer (final_text ?st)), [[UserMsg q]]))"
    using assms(1-5) unfolding process_query_def tcs by (simp add: Let_def)
  then show ?thesis unfolding st by simp
qed

text \<open>
  Claim C9. A tool call of unknown shape leaves the state of the loop as it is: no failure
  note, no message, no result. For a batch that is not empty and holds such calls only,
  there is no failure note at all and the answer is the fixed text of line 215, which is not
  the join of the (empty) list of failure notes.
\<close>

theorem unrecognized_calls_skipped:
  assumes "list_tools env = Inr tools"
    and "generation_call env [UserMsg q] tools = Inr r"
    and "status_code r = 200"
    and "choices r = m # ms"
    and "tool_calls m = Some tcs"
    and "tcs \<noteq> []"
    and "\<forall>tc\<in>set tcs. tc = OtherCall"
  shows "process_tool_call env k OtherCall st = st
         \<and> failure_notes env 0 tcs = []
         \<and> process_query env q = (Inr msg_no_response, [[UserMsg q]])
         \<and> msg_no_response \<noteq> join newline (failure_notes env 0 tcs)"
proof -
  have a: "process_tool_call env k OtherCall st = st"
    by (simp add: process_tool_call_def)
  have b: "failure_notes env 0 tcs = []"
    using assms(7) by (rule failure_notes_all_other)
  have c: "success_results env 0 tcs = []"
    using assms(7) by (rule success_results_all_other)
  have d: "process_query env q = (Inr msg_no_response, [[UserMsg q]])"
    using process_query_batch[OF assms(1-6)] by (simp add: b c answer_def)
  have e: "msg_no_response \<noteq> join newline (failure_notes env 0 tcs)"
    by (simp add: b msg_no_response_def)
  from a b d e show ?thesis by blast
qed

lemma success_messages_append:
  "success_messages env k (xs @ ys) =
     success_messages env k xs @ success_messages env (k + length xs) ys"
  by (induction xs arbitrary: k) simp_all

lemma outcome_Succeeded_fields:
  "outcome env k tc = Succeeded n a i c \<Longrightarrow> call_fields tc = Some (n, a, i)"
  by (auto simp: outcome_def split: option.splits sum.splits)

lemma carried_fields_carried:
  "call_fields tc = Some (n, a, i) \<Longrightarrow> carried_fields (carried tc n a i) = call_fields tc"
  by (cases tc) (simp_all add: carried_fields_def carried_def)

lemma success_messages_at:
  assumes "j < length tcs"
    and "outcome env (k + j) (tcs ! j) = Succeeded n a i c"
  shows "success_messages env k tcs =
           success_messages env k (take j tcs)
           @ [AssistantMsg [] [carried (tcs ! j) n a i], ToolMsg i c]
           @ success_messages env (Suc (k + j)) (drop (Suc j) tcs)"
proof -
  have "tcs = take j tcs @ (tcs ! j # drop (Suc j) tcs)"
    using assms(1) by (simp add: id_take_nth_drop)
  then have "success_messages env k tcs =
      success_messages env k (take j tcs @ (tcs ! j # drop (Suc j) tcs))" by simp
  also have "\<dots> = success_messages env k (take j tcs)
      @ success_messages env (k + j) (tcs ! j # drop (Suc j) tcs)"
    using assms(1) by (simp add: success_messages_append)
  finally show ?thesis using assms(2) by simp
qed

lemma success_results_at:
  "j < length tcs \<Longrightarrow> outcome env (k + j) (tcs ! j) = Succeeded n a i c \<Longrightarrow>
   success_results env k tcs \<noteq> []"
proof (induction tcs arbitrary: k j)
  case Nil
  then show ?case by simp
next
  case (Cons tc tcs)
  show ?case
  proof (cases j)
    case 0
    with Cons.prems show ?thesis by simp
  next
    case (Suc j')
    with Cons.prems have "j' < length tcs" "outcome env (Suc k + j') (tcs ! j') = Succeeded n a i c"
      by simp_all
    from Cons.IH[OF this] show ?thesis by simp
  qed
qed

text \<open>
  Claim C6. When the call at position \<open>j\<close> of the batch succeeds with content \<open>c\<close>, the
  transcript sent to the model with the final call holds, after the messages of the earlier
  calls, an assistant message carrying a request with the name, the arguments and the
  identifier of that call, and right after it the tool message with the content, whose
  \<open>tool_call_id\<close> is the identifier of the request.
\<close>

theorem successful_call_in_transcript:
  assumes "list_tools env = Inr tools"
    and "generation_call env [UserMsg q] tools = Inr r"
    and "status_code r = 200"
    and "choices r = m # ms"
    and "tool_calls m = Some tcs"
    and "j < length tcs"
    and "outcome env j (tcs ! j) = Succeeded n a i c"
  shows "\<exists>cc. snd (process_query env q) =
            [[UserMsg q],
             (UserMsg q # success_messages env 0 (take j tcs))
               @ [AssistantMsg [] [cc], ToolMsg i c]
               @ success_messages env (Suc j) (drop (Suc j) tcs)]
          \<and> carried_fields cc = call_fields (tcs ! j)
          \<and> call_fields (tcs ! j) = Some (n, a, i)"
proof -
  from assms(6) have ne: "tcs \<noteq> []" by auto
  have o: "outcome env (0 + j) (tcs ! j) = Succeeded n a i c" using assms(7) by simp
  have res: "success_results env 0 tcs \<noteq> []"
    using success_results_at[OF assms(6) o] .
  have f: "call_fields (tcs ! j) = Some (n, a, i)"
    using assms(7) by (rule outcome_Succeeded_fields)
  have "snd (process_query env q) = [[UserMsg q], UserMsg q # success_messages env 0 tcs]"
    using process_query_batch[OF assms(1-5) ne] res by simp
  also have "success_messages env 0 tcs =
           success_messages env 0 (take j tcs)
           @ [AssistantMsg [] [carried (tcs ! j) n a i], ToolMsg i c]
           @ success_messages env (Suc j) (drop (Suc j) tcs)"
    using success_messages_at[OF assms(6) o] by simp
  finally have "snd (process_query env q) =
            [[UserMsg q],
             (UserMsg q # success_messages env 0 (take j tcs))
               @ [AssistantMsg [] [carried (tcs ! j) n a i], ToolMsg i c]
               @ success_messages env (Suc j) (drop (Suc j) tcs)]" by simp
  with f carried_fields_carried[OF f] show ?thesis by blast
qed



lemma join_single: "join sep [x] = x"
  by simp






lemma empty_content_empty_answer:
  "fst (process_query (example_env (ContentText []) None tool_down (Inl [])) (ascii ''q'')) = Inr []"
  by (simp add: process_query_def example_env_def first_response_def first_message_def
        answer_def content_text_def)

subsection \<open>The client at concrete inputs\<close>

lemma example_env_first:
  "list_tools (example_env c tcs tool final) = Inr []"
  "generation_call (example_env c tcs tool final) [UserMsg (ascii ''q'')] [] = Inr (first_response c tcs)"
  "status_code (first_response c tcs) = 200"
  "choices (first_response c tcs) = first_message c tcs # []"
  "tool_calls (first_message c tcs) = tcs"
  by (simp_all add: example_env_def first_response_def first_message_def)


lemma outcome_read_call:
  "outcome (example_env c tcs tool final) k read_call = Failed (ascii ''bad json'')"
  by (simp add: outcome_def execute_call_def example_env_def read_call_def)


lemma outcome_run_call_up:
  "outcome (example_env c tcs tool_up final) k run_call =
     Succeeded (Some (ascii ''run'')) (ArgVal (JObj [])) (ascii ''c2'') (ascii ''done'')"
  by (simp add: outcome_def execute_call_def example_env_def run_call_def tool_up_def
        result_content_def)


theorem unrecognized_calls_skipped_witness:
  "process_tool_call (example_env (ContentText []) (Some [OtherCall, OtherCall]) tool_up (Inl [])) 0
       OtherCall \<lparr>messages = [UserMsg (ascii ''q'')], tool_results = [], final_text = []\<rparr>
     = \<lparr>messages = [UserMsg (ascii ''q'')], tool_results = [], final_text = []\<rparr>
   \<and> failure_notes (example_env (ContentText []) (Some [OtherCall, OtherCall]) tool_up (Inl [])) 0
        [OtherCall, OtherCall] = []
   \<and> process_query (example_env (ContentText []) (Some [OtherCall, OtherCall]) tool_up (Inl []))
        (ascii ''q'') = (Inr msg_no_response, [[UserMsg (ascii ''q'')]])
   \<and> msg_no_response \<noteq>
        join newline (failure_notes (example_env (ContentText []) (Some [OtherCall, OtherCall])
          tool_up (Inl [])) 0 [OtherCall, OtherCall])"
proof -
  have ne: "[OtherCall, OtherCall] \<noteq> []" by simp
  have all: "\<forall>tc\<in>set [OtherCall, OtherCall]. tc = OtherCall" by simp
  show ?thesis
    by (rule unrecognized_calls_skipped[OF example_env_first ne all])
qed

theorem successful_call_in_transcript_witness:
  "\<exists>cc. snd (process_query (example_env (ContentText []) (Some [read_call, run_call]) tool_up
                 (Inr server_error)) (ascii ''q'')) =
            [[UserMsg (ascii ''q'')],
             (UserMsg (ascii ''q'') #
                success_messages (example_env (ContentText []) (Some [read_call, run_call]) tool_up
                  (Inr server_error)) 0 (take 1 [read_call, run_call]))
               @ [AssistantMsg [] [cc], ToolMsg (ascii ''c2'') (ascii ''done'')]
               @ success_messages (example_env (ContentText []) (Some [read_call, run_call]) tool_up
                   (Inr server_error)) (Suc 1) (drop (Suc 1) [read_call, run_call])]
          \<and> carried_fields cc = call_fields ([read_call, run_call] ! 1)
          \<and> call_fields ([read_call, run_call] ! 1)
              = Some (Some (ascii ''run''), ArgVal (JObj []), ascii ''c2'')"
proof -
  let ?env = "example_env (ContentText []) (Some [read_call, run_call]) tool_up (Inr server_error)"
  have j: "1 < length [read_call, run_call]" by simp
  have out: "outcome ?env 1 ([read_call, run_call] ! 1) =
      Succeeded (Some (ascii ''run'')) (ArgVal (JObj [])) (ascii ''c2'') (ascii ''done'')"
    by (simp add: outcome_run_call_up)
  show ?thesis
    by (rule successful_call_in_transcript[OF example_env_first j out])
qed

lemma example_transcript:
  "snd (process_query (example_env (ContentText []) (Some [read_call, run_call]) tool_up
          (Inr server_error)) (ascii ''q'')) =
     [[UserMsg (ascii ''q'')],
      [UserMsg (ascii ''q''), AssistantMsg [] [Raw run_call],
       ToolMsg (ascii ''c2'') (ascii ''done'')]]"
proof -
  let ?env = "example_env (ContentText []) (Some [read_call, run_call]) tool_up (Inr server_error)"
  have ne: "[read_call, run_call] \<noteq> []" by simp
  have c: "carried run_call (Some (ascii ''run'')) (ArgVal (JObj [])) (ascii ''c2'') = Raw run_call"
    by (simp add: carried_def run_call_def)
  have h: "list_tools ?env = Inr []"
    "generation_call ?env [UserMsg (ascii ''q'')] [] =
       Inr (first_response (ContentText []) (Some [read_call, run_call]))"
    by (rule example_env_first)+
  show ?thesis
    using process_query_batch[OF h example_env_first(3-5) ne]
    by (simp add: outcome_read_call outcome_run_call_up c)
qed




lemma busy_answer:
  "fst (process_query busy_env (ascii ''q'')) = Inr (msg_api_failed @ ascii ''busy'')"
  by (simp add: process_query_def busy_env_def server_error_def)

lemma model_name_call_model: "model_name (call_model m g) = model_value m"
  by (simp add: call_model_def split: generation.splits prod.splits)

lemma model_value_inj: "model_value a = model_value b \<longleftrightarrow> a = b"
  by (cases a; cases b) (simp_all add: ascii_def)

lemma model_value_not_no_winner: "model_value m \<noteq> msg_no_winner"
  by (cases m) (simp_all add: ascii_def msg_no_winner_def)


lemma dict_set_fresh: "k \<notin> fst ` set d \<Longrightarrow> dict_set d k v = d @ [(k, v)]"
  by (induction d) auto

lemma fold_dict_set_distinct:
  "distinct (map f xs) \<Longrightarrow> f ` set xs \<inter> fst ` set d = {} \<Longrightarrow>
   fold (\<lambda>x d. dict_set d (f x) (g x)) xs d = d @ map (\<lambda>x. (f x, g x)) xs"
proof (induction xs arbitrary: d)
  case Nil
  then show ?case by simp
next
  case (Cons x xs)
  from Cons.prems have fresh: "f x \<notin> fst ` set d" by auto
  have "f ` set xs \<inter> fst ` set (d @ [(f x, g x)]) = {}"
    using Cons.prems by auto
  with Cons.IH[of "d @ [(f x, g x)]"] Cons.prems show ?case
    by (simp add: dict_set_fresh[OF fresh])
qed

lemma map_fst_dict_set:
  "map fst (dict_set d k v) = (if k \<in> fst ` set d then map fst d else map fst d @ [k])"
  by (induction d) force+

lemma keys_dict_set: "fst ` set (dict_set d k v) = insert k (fst ` set d)"
proof -
  have "set (map fst (dict_set d k v)) = insert k (set (map fst d))"
    unfolding map_fst_dict_set by auto
  then show ?thesis by simp
qed

lemma keys_fold_dict_set:
  "fst ` set (fold (\<lambda>x d. dict_set d (f x) (g x)) xs d) = fst ` set d \<union> f ` set xs"
  by (induction xs arbitrary: d) (auto simp: keys_dict_set)

lemma py_max_mem: "py_max key x xs \<in> set (x # xs)"
  by (induction xs arbitrary: x) (auto split: if_splits)

lemma py_max_ge_best: "key best \<le> key (py_max key best xs)"
proof (induction xs arbitrary: best)
  case Nil
  show ?case by simp
next
  case (Cons x xs)
  have "key best \<le> key (if key best < key x then x else best)" by simp
  also have "\<dots> \<le> key (py_max key (if key best < key x then x else best) xs)"
    by (rule Cons.IH)
  finally show ?case by simp
qed

lemma py_max_first:
  "\<exists>pre post. x # xs = pre @ [py_max key x xs] @ post
      \<and> (\<forall>y\<in>set pre. key y < key (py_max key x xs))
      \<and> (\<forall>y\<in>set post. key y \<le> key (py_max key x xs))"
proof (induction xs arbitrary: x)
  case Nil
  have "[x] = [] @ [x] @ []" by simp
  then show ?case by fastforce
next
  case (Cons y ys)
  show ?case
  proof (cases "key x < key y")
    case True
    from Cons.IH[of y] obtain pre post where
      d: "y # ys = pre @ [py_max key y ys] @ post"
      and l: "\<forall>z\<in>set pre. key z < key (py_max key y ys)"
      and r: "\<forall>z\<in>set post. key z \<le> key (py_max key y ys)" by blast
    have "key y \<le> key (py_max key y ys)" by (rule py_max_ge_best)
    with True have "key x < key (py_max key y ys)" by simp
    with l have l': "\<forall>z\<in>set (x # pre). key z < key (py_max key y ys)" by simp
    from d have "x # y # ys = (x # pre) @ [py_max key y ys] @ post" by simp
    with l' r True show ?thesis
      by (metis py_max.simps(2))
  next
    case False
    from Cons.IH[of x] obtain pre post where
      d: "x # ys = pre @ [py_max key x ys] @ post"
      and l: "\<forall>z\<in>set pre. key z < key (py_max key x ys)"
      and r: "\<forall>z\<in>set post. key z \<le> key (py_max key x ys)" by blast
    have m: "py_max key x (y # ys) = py_max key x ys" using False by simp
    show ?thesis
    proof (cases pre)
      case Nil
      from d[unfolded Nil] have e: "x # ys = py_max key x ys # post"
        by (simp only: append.simps)
      from e have mx: "py_max key x ys = x" by (metis list.inject)
      from e have p: "post = ys" by (metis list.inject)
      have "x # y # ys = [] @ [x] @ (y # ys)" by simp
      moreover have "\<forall>z\<in>set (y # ys). key z \<le> key x"
        using r False p mx by auto
      ultimately show ?thesis unfolding m mx
        by (metis empty_iff list.set(1))
    next
      case (Cons p ps)
      from d[unfolded Cons] have e: "x # ys = p # (ps @ [py_max key x ys] @ post)"
        by (simp only: append.simps)
      from e have px: "p = x" by (metis list.inject)
      from e have ys: "ys = ps @ [py_max key x ys] @ post" by (metis list.inject)
      from l Cons px have xl: "key x < key (py_max key x ys)" by simp
      with False have "key y < key (py_max key x ys)" by simp
      with l Cons px have l': "\<forall>z\<in>set (x # y # ps). key z < key (py_max key x ys)" by simp
      from ys have "x # y # ys = (x # y # ps) @ [py_max key x ys] @ post" by simp
      with l' r show ?thesis unfolding m by blast
    qed
  qed
qed

lemma py_max_index:
  "\<exists>k<length (x # xs). py_max key x xs = (x # xs) ! k
      \<and> (\<forall>j<length (x # xs). key ((x # xs) ! j) \<le> key ((x # xs) ! k))
      \<and> (\<forall>j<k. key ((x # xs) ! j) < key ((x # xs) ! k))"
proof -
  from py_max_first[of x xs key] obtain pre post where
      d: "x # xs = pre @ [py_max key x xs] @ post"
      and l: "\<forall>y\<in>set pre. key y < key (py_max key x xs)"
      and r: "\<forall>y\<in>set post. key y \<le> key (py_max key x xs)" by blast
  let ?k = "length pre"
  have k: "?k < length (x # xs)" by (subst d) simp
  have at: "(x # xs) ! ?k = py_max key x xs" by (subst d) simp
  have le: "key ((x # xs) ! j) \<le> key ((x # xs) ! ?k)" if "j < length (x # xs)" for j
  proof -
    from that have "(x # xs) ! j \<in> set (x # xs)" by (rule nth_mem)
    then have "(x # xs) ! j \<in> set pre \<union> {py_max key x xs} \<union> set post"
      by (subst (asm) (2) d) auto
    with l r show ?thesis unfolding at by auto
  qed
  have lt: "key ((x # xs) ! j) < key ((x # xs) ! ?k)" if "j < ?k" for j
  proof -
    from that have "(x # xs) ! j = pre ! j" by (subst d) (simp add: nth_append)
    with that l show ?thesis unfolding at by simp
  qed
  from k at le lt show ?thesis by metis
qed

lemma winner_answer_absent:
  "winner \<notin> model_name ` set rs \<Longrightarrow> winner_answer winner rs = []"
  by (induction rs) auto

lemma winner_answer_distinct:
  "distinct (map model_name rs) \<Longrightarrow> k < length rs \<Longrightarrow>
   winner_answer (model_name (rs ! k)) rs = (if has_error (rs ! k) then [] else response (rs ! k))"
proof (induction rs arbitrary: k)
  case Nil
  then show ?case by simp
next
  case (Cons r rs)
  show ?case
  proof (cases k)
    case 0
    with Cons.prems show ?thesis by (simp add: winner_answer_absent)
  next
    case (Suc k')
    with Cons.prems have k': "k' < length rs" by simp
    then have "model_name (rs ! k') \<in> model_name ` set rs" by simp
    with Cons.prems(1) have "model_name (rs ! k') \<noteq> model_name r" by auto
    with Cons.IH[of k'] Cons.prems k' Suc show ?thesis by simp
  qed
qed

subsection \<open>A round\<close>

lemma map_snd_enumerate_fun: "map (\<lambda>p. f (snd p)) (enumerate n xs) = map f xs"
  by (induction xs arbitrary: n) simp_all

lemma map_model_name_answer_phase:
  "map model_name (answer_phase w rn models) = map model_value models"
proof -
  have "map model_name (answer_phase w rn models)
          = map (\<lambda>p. model_value (snd p)) (enumerate 0 models)"
    by (simp add: answer_phase_def model_name_call_model split_def)
  also have "\<dots> = map model_value models"
    by (rule map_snd_enumerate_fun)
  finally show ?thesis .
qed

lemma length_answer_phase: "length (answer_phase w rn models) = length models"
  by (simp add: answer_phase_def)

lemma map_model_name_responses:
  "map model_name (responses (fst (battle_round w rn q models))) = map model_value models"
proof -
  let ?a = "answer_phase w rn models"
  let ?f = "\<lambda>(i, r). if has_error r then r\<lparr>scores := []\<rparr>
                       else r\<lparr>scores := score_subject w rn models i\<rparr>"
  have "map model_name (map ?f (enumerate 0 ?a)) = map (\<lambda>p. model_name (snd p)) (enumerate 0 ?a)"
    by (simp add: split_def)
  also have "\<dots> = map model_name ?a" by (rule map_snd_enumerate_fun)
  finally have "map model_name (map ?f (enumerate 0 ?a)) = map model_value models"
    by (simp add: map_model_name_answer_phase)
  then show ?thesis
    by (simp add: battle_round_def Let_def map_model_name_answer_phase)
qed

lemma set_dict_set: "set (dict_set d k v) \<subseteq> insert (k, v) (set d)"
  by (induction d) (auto split: if_splits)

lemma set_fold_dict_set:
  "set (fold (\<lambda>x d. dict_set d (f x) (g x)) xs d) \<subseteq> set d \<union> (\<lambda>x. (f x, g x)) ` set xs"
proof (induction xs arbitrary: d)
  case Nil
  show ?case by simp
next
  case (Cons x xs)
  have "set (fold (\<lambda>x d. dict_set d (f x) (g x)) xs (dict_set d (f x) (g x)))
          \<subseteq> set (dict_set d (f x) (g x)) \<union> (\<lambda>x. (f x, g x)) ` set xs"
    by (rule Cons.IH)
  also have "\<dots> \<subseteq> insert (f x, g x) (set d) \<union> (\<lambda>x. (f x, g x)) ` set xs"
    using set_dict_set[of d "f x" "g x"] by auto
  finally show ?case by auto
qed

lemma map_of_all_zero:
  assumes "k \<in> fst ` set d" and "\<forall>kv\<in>set d. snd kv = (0::rat)"
  shows "map_of d k = Some 0"
proof -
  from assms(1) obtain v where "map_of d k = Some v"
    by (cases "map_of d k") (auto simp: map_of_eq_None_iff)
  moreover from this have "(k, v) \<in> set d" by (rule map_of_SomeD)
  ultimately show ?thesis using assms(2) by auto
qed

text \<open>
  Claim C5. In a round in which fewer than two models gave an answer without error, no
  scoring call is made, the round score of every model of the list is 0, no other score is
  recorded, and the responses are the answers as they came.
\<close>

theorem too_few_valid_answers:
  assumes "length (filter (\<lambda>r. \<not> has_error r) (answer_phase w rn models)) < 2"
  shows "snd (battle_round w rn q models) = []
         \<and> (\<forall>m\<in>set models.
               map_of (round_scores (fst (battle_round w rn q models))) (model_value m) = Some 0)
         \<and> (\<forall>kv\<in>set (round_scores (fst (battle_round w rn q models))). snd kv = 0)
         \<and> responses (fst (battle_round w rn q models)) = answer_phase w rn models"
proof -
  let ?a = "answer_phase w rn models"
  let ?d = "fold (\<lambda>r d. dict_set d (model_name r) (0::rat)) ?a []"
  have br: "battle_round w rn q models =
      (\<lparr>round_number = rn, responses = ?a, round_scores = ?d\<rparr>, [])"
    using assms by (simp add: battle_round_def Let_def)
  have vals: "\<forall>kv\<in>set ?d. snd kv = 0"
    using set_fold_dict_set[of model_name "\<lambda>r. 0::rat" ?a "[]"] by auto
  have keys: "fst ` set ?d = model_value ` set models"
  proof -
    have "fst ` set ?d = model_name ` set ?a"
      using keys_fold_dict_set[of model_name "\<lambda>r. 0::rat" ?a "[]"] by simp
    also have "\<dots> = set (map model_name ?a)" by simp
    also have "\<dots> = model_value ` set models"
      by (simp only: map_model_name_answer_phase set_map)
    finally show ?thesis .
  qed
  have "\<forall>m\<in>set models. map_of ?d (model_value m) = Some 0"
  proof
    fix m assume "m \<in> set models"
    then have "model_value m \<in> fst ` set ?d" unfolding keys by simp
    then show "map_of ?d (model_value m) = Some 0" using vals by (rule map_of_all_zero)
  qed
  with vals show ?thesis by (simp add: br)
qed



subsection \<open>Rounds at concrete inputs\<close>

lemma has_error_timed_out: "has_error (call_model m timed_out)"
  by (simp add: has_error_def call_model_def timed_out_def err_call_prefix_def)

lemma has_error_returned: "\<not> has_error (call_model m (returned text))"
  by (simp add: has_error_def call_model_def returned_def)






lemma example_world_calls:
  "answer_call (example_world a s) = a"
  "scoring_call (example_world a s) = s"
  by (simp_all add: example_world_def)

lemmas second_down_calls =
  example_world_calls second_down_answers_def second_down_scorings_def



theorem too_few_valid_answers_witness:
  "snd (battle_round (example_world second_down_answers second_down_scorings) 1 (ascii ''q'')
          [DASHSCOPE_QWEN, DASHSCOPE_QWEN_MAX]) = []
   \<and> map_of (round_scores (fst (battle_round (example_world second_down_answers second_down_scorings) 1
               (ascii ''q'') [DASHSCOPE_QWEN, DASHSCOPE_QWEN_MAX]))) (model_value DASHSCOPE_QWEN) = Some 0
   \<and> map_of (round_scores (fst (battle_round (example_world second_down_answers second_down_scorings) 1
               (ascii ''q'') [DASHSCOPE_QWEN, DASHSCOPE_QWEN_MAX]))) (model_value DASHSCOPE_QWEN_MAX) = Some 0"
proof -
  let ?w = "example_world second_down_answers second_down_scorings"
  have h: "length (filter (\<lambda>r. \<not> has_error r)
             (answer_phase ?w 1 [DASHSCOPE_QWEN, DASHSCOPE_QWEN_MAX])) < 2"
    by (simp add: answer_phase_def second_down_calls has_error_timed_out has_error_returned)
  from too_few_valid_answers[OF h, of "ascii ''q''"] show ?thesis by simp
qed

subsection \<open>Finalization\<close>

lemma battle_unfold:
  "battle w q models num_rounds =
     (let rs = map (\<lambda>round_num. fst (battle_round w (int round_num + 1) q models)) [0..<nat num_rounds];
          fs = fold (\<lambda>model_type d. dict_set d (model_value model_type)
                                       (total_score rs (model_value model_type))) models [];
          winner = (case fs of [] \<Rightarrow> msg_no_winner | x # xs \<Rightarrow> fst (py_max snd x xs))
      in if winner \<noteq> msg_no_winner
         then (case rs of
                 [] \<Rightarrow> Inl IndexError
               | _ \<Rightarrow> Inr \<lparr>question = q, rounds = rs, final_scores = fs, final_winner = winner,
                           final_answer = winner_answer winner (responses (last rs)),
                           timestamp = strftime w\<rparr>)
         else Inr \<lparr>question = q, rounds = rs, final_scores = fs, final_winner = winner,
                   final_answer = [], timestamp = strftime w\<rparr>)"
  by (simp add: battle_def)

lemma winner_is_model:
  assumes "models \<noteq> []"
  shows "\<exists>x xs. fold (\<lambda>model_type d. dict_set d (model_value model_type) (g model_type)) models [] = x # xs
           \<and> fst (py_max snd x xs) \<in> model_value ` set models"
proof -
  let ?fs = "fold (\<lambda>model_type d. dict_set d (model_value model_type) (g model_type)) models []"
  have keys: "fst ` set ?fs = model_value ` set models"
    using keys_fold_dict_set[of model_value g models "[]"] by simp
  with assms have "?fs \<noteq> []" by auto
  then obtain x xs where fs: "?fs = x # xs" by (cases ?fs) auto
  have "py_max snd x xs \<in> set (x # xs)" by (rule py_max_mem)
  then have "fst (py_max snd x xs) \<in> fst ` set ?fs" unfolding fs by (rule imageI)
  with keys fs show ?thesis by simp
qed

text \<open>
  Claim C10. With a model list that is not empty and \<open>num_rounds\<close> at most 0, \<open>battle\<close>
  ends in the \<open>IndexError\<close> of \<open>rounds[-1]\<close>, and in no other case: it returns a
  \<open>BattleResult\<close> exactly when the model list is empty or \<open>num_rounds\<close> is at least 1.
\<close>

theorem battle_without_rounds:
  "(battle w q models num_rounds = Inl IndexError) = (models \<noteq> [] \<and> num_rounds \<le> 0)
   \<and> (\<exists>res. battle w q models num_rounds = Inr res) = (models = [] \<or> 1 \<le> num_rounds)"
proof -
  let ?rs = "map (\<lambda>round_num. fst (battle_round w (int round_num + 1) q models)) [0..<nat num_rounds]"
  have rs: "?rs = [] \<longleftrightarrow> num_rounds \<le> 0" by simp
  have a: "(battle w q models num_rounds = Inl IndexError) = (models \<noteq> [] \<and> num_rounds \<le> 0)"
  proof (cases "models = []")
    case True
    then show ?thesis by (simp add: battle_unfold)
  next
    case False
    from winner_is_model[OF False, of "\<lambda>m. total_score ?rs (model_value m)"]
    obtain x xs where
      fs: "fold (\<lambda>model_type d. dict_set d (model_value model_type)
                   (total_score ?rs (model_value model_type))) models [] = x # xs"
      and win: "fst (py_max snd x xs) \<in> model_value ` set models" by blast
    from win obtain mw where "fst (py_max snd x xs) = model_value mw" by blast
    then have nw: "fst (py_max snd x xs) \<noteq> msg_no_winner"
      by (simp add: model_value_not_no_winner)
    show ?thesis
    proof (cases "num_rounds \<le> 0")
      case True
      then have "?rs = []" by simp
      then show ?thesis using False True nw fs
        by (simp add: battle_unfold Let_def)
    next
      case nz: False
      then have "?rs \<noteq> []" by simp
      then obtain r rs' where "?rs = r # rs'" by (cases ?rs) auto
      then show ?thesis using False nz nw fs
        by (simp add: battle_unfold Let_def)
    qed
  qed
  have "(\<exists>res. battle w q models num_rounds = Inr res) = (battle w q models num_rounds \<noteq> Inl IndexError)"
  proof (cases "battle w q models num_rounds")
    case (Inl e)
    then show ?thesis by (cases e) simp
  next
    case (Inr res)
    then show ?thesis by simp
  qed
  also have "\<dots> = (models = [] \<or> 1 \<le> num_rounds)" unfolding a by auto
  finally show ?thesis using a by simp
qed

text \<open>
  Claim C4. For a list of distinct models that is not empty and at least one round,
  \<open>battle\<close> returns a result in which: the final score of each model is the sum of its
  scores of the rounds; the winner is the model at the first position \<open>k\<close> of the list whose
  final score is the greatest (no model has a greater one, every model before it has a smaller
  one); the final answer is the answer of the winner in the last round, and empty if that
  answer had an error.
\<close>

theorem battle_finalization:
  assumes "distinct models" and "models \<noteq> []" and "1 \<le> num_rounds"
  shows "\<exists>res k. battle w q models num_rounds = Inr res
     \<and> length (rounds res) = nat num_rounds
     \<and> final_scores res =
         map (\<lambda>m. (model_value m,
                    sum_list (map (\<lambda>r. dict_get (round_scores r) (model_value m) 0) (rounds res))))
             models
     \<and> k < length models
     \<and> final_winner res = model_value (models ! k)
     \<and> (\<forall>j<length models. total_score (rounds res) (model_value (models ! j))
                             \<le> total_score (rounds res) (model_value (models ! k)))
     \<and> (\<forall>j<k. total_score (rounds res) (model_value (models ! j))
                 < total_score (rounds res) (model_value (models ! k)))
     \<and> rounds res \<noteq> []
     \<and> model_name (responses (last (rounds res)) ! k) = final_winner res
     \<and> final_answer res =
         (if has_error (responses (last (rounds res)) ! k) then []
          else response (responses (last (rounds res)) ! k))"
proof -
  define rs where
    "rs = map (\<lambda>round_num. fst (battle_round w (int round_num + 1) q models)) [0..<nat num_rounds]"
  define tot where "tot = (\<lambda>m. total_score rs (model_value m))"
  define fs where "fs = map (\<lambda>m. (model_value m, tot m)) models"
  have dist: "distinct (map model_value models)"
    using assms(1) by (simp add: distinct_map inj_on_def model_value_inj)
  have fold_fs: "fold (\<lambda>model_type d. dict_set d (model_value model_type)
                          (total_score rs (model_value model_type))) models [] = fs"
    using fold_dict_set_distinct[OF dist, of "[]" tot] by (simp add: fs_def tot_def)
  from assms(2) obtain m ms where models: "models = m # ms" by (cases models) auto
  define x where "x = (model_value m, tot m)"
  define xs where "xs = map (\<lambda>m. (model_value m, tot m)) ms"
  have fs': "fs = x # xs" by (simp add: fs_def models x_def xs_def)
  from py_max_index[of x xs snd] obtain k where
    k: "k < length (x # xs)"
    and at: "py_max snd x xs = (x # xs) ! k"
    and le: "\<forall>j<length (x # xs). snd ((x # xs) ! j) \<le> snd ((x # xs) ! k)"
    and lt: "\<forall>j<k. snd ((x # xs) ! j) < snd ((x # xs) ! k)" by blast
  have lenfs: "length fs = length models" by (simp add: fs_def)
  have klen: "k < length models" using k lenfs by (simp add: fs')
  have nth: "fs ! j = (model_value (models ! j), tot (models ! j))" if "j < length models" for j
    using that by (simp add: fs_def)
  define winner where "winner = model_value (models ! k)"
  have win: "fst (py_max snd x xs) = winner"
    using at nth[OF klen] by (simp add: fs'[symmetric] winner_def)
  have nw: "winner \<noteq> msg_no_winner" unfolding winner_def by (rule model_value_not_no_winner)
  have le': "\<forall>j<length models. tot (models ! j) \<le> tot (models ! k)"
  proof (intro allI impI)
    fix j assume j: "j < length models"
    then have "j < length (x # xs)" using lenfs by (simp add: fs')
    with le have "snd (fs ! j) \<le> snd (fs ! k)" unfolding fs' by blast
    then show "tot (models ! j) \<le> tot (models ! k)" by (simp add: nth[OF j] nth[OF klen])
  qed
  have lt': "\<forall>j<k. tot (models ! j) < tot (models ! k)"
  proof (intro allI impI)
    fix j assume jk: "j < k"
    with klen have j: "j < length models" by simp
    from lt jk have "snd (fs ! j) < snd (fs ! k)" unfolding fs' by blast
    then show "tot (models ! j) < tot (models ! k)" by (simp add: nth[OF j] nth[OF klen])
  qed
  have len_rs: "length rs = nat num_rounds" by (simp add: rs_def)
  have rs_ne: "rs \<noteq> []" using assms(3) len_rs by auto
  then obtain r rs' where rs: "rs = r # rs'" by (cases rs) auto
  have "last rs \<in> set rs" using rs_ne by (rule last_in_set)
  then obtain rn where lr: "last rs = fst (battle_round w rn q models)"
    unfolding rs_def by auto
  define resp where "resp = responses (last rs)"
  have names: "map model_name resp = map model_value models"
    unfolding resp_def lr by (rule map_model_name_responses)
  then have len: "length resp = length models" by (metis length_map)
  have kresp: "k < length resp" using klen len by simp
  have name_k: "model_name (resp ! k) = winner"
  proof -
    have "model_name (resp ! k) = map model_name resp ! k" using kresp by simp
    also have "\<dots> = winner" unfolding names winner_def using klen by simp
    finally show ?thesis .
  qed
  have dist_resp: "distinct (map model_name resp)" unfolding names by (rule dist)
  have ans: "winner_answer winner resp = (if has_error (resp ! k) then [] else response (resp ! k))"
    using winner_answer_distinct[OF dist_resp kresp] unfolding name_k .
  define res where
    "res = \<lparr>question = q, rounds = rs, final_scores = fs, final_winner = winner,
             final_answer = winner_answer winner resp, timestamp = strftime w\<rparr>"
  have b: "battle w q models num_rounds = Inr res"
    unfolding battle_unfold rs_def[symmetric] Let_def fold_fs
    by (simp add: fs' win nw rs res_def resp_def)
  have sel: "rounds res = rs" "final_scores res = fs" "final_winner res = winner"
    "final_answer res = winner_answer winner resp"
    by (simp_all add: res_def)
  have c2: "length (rounds res) = nat num_rounds" unfolding sel by (rule len_rs)
  have c3: "final_scores res =
         map (\<lambda>m. (model_value m,
                    sum_list (map (\<lambda>r. dict_get (round_scores r) (model_value m) 0) (rounds res))))
             models"
    unfolding sel by (simp add: fs_def tot_def total_score_def)
  have c5: "final_winner res = model_value (models ! k)" unfolding sel winner_def ..
  have c6: "\<forall>j<length models. total_score (rounds res) (model_value (models ! j))
                             \<le> total_score (rounds res) (model_value (models ! k))"
    unfolding sel using le' by (simp add: tot_def)
  have c7: "\<forall>j<k. total_score (rounds res) (model_value (models ! j))
                 < total_score (rounds res) (model_value (models ! k))"
    unfolding sel using lt' by (simp add: tot_def)
  have c8: "rounds res \<noteq> []" unfolding sel by (rule rs_ne)
  have c9: "model_name (responses (last (rounds res)) ! k) = final_winner res"
    unfolding sel using name_k by (simp add: resp_def)
  have c10: "final_answer res =
         (if has_error (responses (last (rounds res)) ! k) then []
          else response (responses (last (rounds res)) ! k))"
    unfolding sel using ans by (simp add: resp_def)
  from b c2 c3 klen c5 c6 c7 c8 c9 c10 show ?thesis by blast
qed

subsection \<open>Battles at concrete inputs\<close>

theorem battle_without_rounds_witness:
  "battle (example_world all_up_answers all_up_scorings) (ascii ''q'') [DASHSCOPE_QWEN] 0
     = Inl IndexError"
proof -
  from battle_without_rounds[of "example_world all_up_answers all_up_scorings" "ascii ''q''"
         "[DASHSCOPE_QWEN]" 0]
  have "(battle (example_world all_up_answers all_up_scorings) (ascii ''q'') [DASHSCOPE_QWEN] 0
           = Inl IndexError) = ([DASHSCOPE_QWEN] \<noteq> [] \<and> (0::int) \<le> 0)"
    by (rule conjunct1)
  then show ?thesis by simp
qed

theorem battle_finalization_witness:
  "\<exists>res k. battle (example_world all_up_answers all_up_scorings) (ascii ''q'')
               [DASHSCOPE_QWEN, DASHSCOPE_QWEN_MAX] 1 = Inr res
     \<and> length (rounds res) = nat 1
     \<and> final_scores res =
         map (\<lambda>m. (model_value m,
                    sum_list (map (\<lambda>r. dict_get (round_scores r) (model_value m) 0) (rounds res))))
             [DASHSCOPE_QWEN, DASHSCOPE_QWEN_MAX]
     \<and> k < length [DASHSCOPE_QWEN, DASHSCOPE_QWEN_MAX]
     \<and> final_winner res = model_value ([DASHSCOPE_QWEN, DASHSCOPE_QWEN_MAX] ! k)
     \<and> rounds res \<noteq> []
     \<and> model_name (responses (last (rounds res)) ! k) = final_winner res
     \<and> final_answer res =
         (if has_error (responses (last (rounds res)) ! k) then []
          else response (responses (last (rounds res)) ! k))"
proof -
  have d: "distinct [DASHSCOPE_QWEN, DASHSCOPE_QWEN_MAX]" by simp
  have n: "[DASHSCOPE_QWEN, DASHSCOPE_QWEN_MAX] \<noteq> []" by simp
  have r: "(1::int) \<le> 1" by simp
  from battle_finalization[OF d n r, of "example_world all_up_answers all_up_scorings" "ascii ''q''"]
  show ?thesis by blast
qed

lemma total_score_example:
  "total_score [\<lparr>round_number = 1, responses = [], round_scores = [(x, 10)]\<rparr>,
                \<lparr>round_number = 2, responses = [], round_scores = [(x, 20)]\<rparr>] x = 30"
  by (simp add: total_score_def dict_get_def)

lemma py_max_example:
  "fst (py_max snd (ascii ''A'', 30) [(ascii ''B'', 45), (ascii ''C'', 10)]) = ascii ''B''"
  by simp

lemma py_max_tie_example:
  "fst (py_max snd (ascii ''A'', 90) [(ascii ''B'', 90)]) = ascii ''A''"
  by simp

subsection \<open>The score of a response that is no JSON\<close>

lemma score_response_fallback:
  assumes "loads w raw = None"
  shows "score_response w (Returned 200 msg raw tokens, t) m =
           \<lparr>score = (case re_search w raw of Some mt \<Rightarrow> float_of_match w mt | None \<Rightarrow> 0),
            comment = JStr (if length raw > 100 then take 100 raw @ ellipsis else raw)\<rparr>"
  using assms by (simp add: score_response_def call_model_def has_error_def Let_def)

lemma re_search_no_digit: "\<forall>c\<in>set raw. \<not> is_digit w c \<Longrightarrow> re_search w raw = None"
  by (induction raw) simp_all

lemma re_search_skip:
  "\<forall>c\<in>set pre. \<not> is_digit w c \<Longrightarrow> re_search w (pre @ s) = re_search w s"
  by (induction pre) simp_all

lemma re_search_digit:
  "s \<noteq> [] \<Longrightarrow> is_digit w (hd s) \<Longrightarrow> re_search w s = Some (match_here w s)"
  by (cases s) simp_all

lemma takeWhile_run:
  "\<forall>c\<in>set ds. P c \<Longrightarrow> rest = [] \<or> \<not> P (hd rest) \<Longrightarrow> takeWhile P (ds @ rest) = ds"
  by (cases rest) (simp_all add: takeWhile_append2)

lemma dropWhile_run:
  "\<forall>c\<in>set ds. P c \<Longrightarrow> rest = [] \<or> \<not> P (hd rest) \<Longrightarrow> dropWhile P (ds @ rest) = rest"
  by (cases rest) (simp_all add: dropWhile_append2)

lemma match_here_integer:
  assumes "\<forall>c\<in>set ds. is_digit w c"
    and "rest = [] \<or> \<not> is_digit w (hd rest)"
    and "\<not> (\<exists>d r. rest = 0x2E # d # r \<and> is_digit w d)"
  shows "match_here w (ds @ rest) = (ds, None)"
proof -
  have t: "takeWhile (is_digit w) (ds @ rest) = ds" using assms(1,2) by (rule takeWhile_run)
  have d: "dropWhile (is_digit w) (ds @ rest) = rest" using assms(1,2) by (rule dropWhile_run)
  show ?thesis
    using assms(3) by (auto simp add: match_here_def t d Let_def split: list.splits)
qed

lemma match_here_fraction:
  assumes "\<forall>c\<in>set ds. is_digit w c"
    and "\<not> is_digit w 0x2E"
    and "fs \<noteq> []"
    and "\<forall>c\<in>set fs. is_digit w c"
    and "rest = [] \<or> \<not> is_digit w (hd rest)"
  shows "match_here w (ds @ [0x2E] @ fs @ rest) = (ds, Some fs)"
proof -
  have t: "takeWhile (is_digit w) (ds @ ([0x2E] @ fs @ rest)) = ds"
    using assms(1,2) by (intro takeWhile_run) simp_all
  have d: "dropWhile (is_digit w) (ds @ ([0x2E] @ fs @ rest)) = [0x2E] @ fs @ rest"
    using assms(1,2) by (intro dropWhile_run) simp_all
  from assms(3) obtain f fs' where fs: "fs = f # fs'" by (cases fs) auto
  have f: "is_digit w f" using assms(4) fs by simp
  have t2: "takeWhile (is_digit w) (fs @ rest) = fs" using assms(4,5) by (rule takeWhile_run)
  have "match_here w (ds @ ([0x2E] @ fs @ rest)) = (ds, Some (takeWhile (is_digit w) (fs @ rest)))"
    unfolding match_here_def t d Let_def using f by (simp add: fs)
  then show ?thesis by (simp only: t2)
qed

lemma ascii_table_is_digit:
  assumes "\<forall>c<128. decimal_digit w c = ascii_digit c" and "c < 128"
  shows "is_digit w c = (48 \<le> c \<and> c \<le> 57)"
  using assms by (simp add: is_digit_def ascii_digit_def)

lemma ascii_table_digit_value:
  assumes "\<forall>c<128. decimal_digit w c = ascii_digit c" and "48 \<le> c" and "c \<le> 57"
  shows "digit_value w c = c - 48"
  using assms by (simp add: digit_value_def ascii_digit_def)

lemma example_text_split:
  "ascii ''I'd say about 78 out of 100, solid work''
     = ascii ''I'd say about '' @ ascii ''78'' @ ascii '' out of 100, solid work''"
  by (simp add: ascii_def)

lemma example_text_score:
  assumes tab: "\<forall>c<128. decimal_digit w c = ascii_digit c"
  shows "re_search w (ascii ''I'd say about 78 out of 100, solid work'') = Some (ascii ''78'', None)"
    and "float_of_match w (ascii ''78'', None) = 78"
proof -
  have pre: "\<forall>c\<in>set (ascii ''I'd say about ''). \<not> is_digit w c"
    by (simp add: ascii_def ascii_table_is_digit[OF tab])
  have ds: "\<forall>c\<in>set (ascii ''78''). is_digit w c"
    by (simp add: ascii_def ascii_table_is_digit[OF tab])
  have rest: "ascii '' out of 100, solid work'' = [] \<or> \<not> is_digit w (hd (ascii '' out of 100, solid work''))"
    by (simp add: ascii_def ascii_table_is_digit[OF tab])
  have nofrac: "\<not> (\<exists>d r. ascii '' out of 100, solid work'' = 0x2E # d # r \<and> is_digit w d)"
    by (simp add: ascii_def)
  have m: "match_here w (ascii ''78'' @ ascii '' out of 100, solid work'') = (ascii ''78'', None)"
    using ds rest nofrac by (rule match_here_integer)
  have hd: "ascii ''78'' @ ascii '' out of 100, solid work'' \<noteq> []"
    "is_digit w (hd (ascii ''78'' @ ascii '' out of 100, solid work''))"
    by (simp_all add: ascii_def ascii_table_is_digit[OF tab])
  show "re_search w (ascii ''I'd say about 78 out of 100, solid work'') = Some (ascii ''78'', None)"
    unfolding example_text_split re_search_skip[OF pre] re_search_digit[OF hd] m ..
  show "float_of_match w (ascii ''78'', None) = 78"
    by (simp add: float_of_match_def digits_value_def ascii_def ascii_table_digit_value[OF tab])
qed

text \<open>
  Claim C3, as amended. When the response of the scorer does not parse as JSON: the comment
  is the raw text itself if it has at most 100 characters, and otherwise its first 100
  characters followed by three dots (103 characters); the score is 0 if the text has no
  digit; otherwise it is the number written by the first run of digits of the text,
  together with the digits after a point when a point and a digit follow that run. For the
  text \<open>I'd say about 78 out of 100, solid work\<close> the score is 78 and the comment is the text.
\<close>

theorem score_fallback:
  assumes "loads w raw = None"
  shows "comment (score_response w (Returned 200 msg raw tokens, t) m)
           = JStr (if length raw \<le> 100 then raw else take 100 raw @ ascii ''...'')
     \<and> ((\<forall>c\<in>set raw. \<not> is_digit w c) \<longrightarrow>
           score (score_response w (Returned 200 msg raw tokens, t) m) = 0)
     \<and> (\<forall>pre ds rest.
           raw = pre @ ds @ rest \<and> (\<forall>c\<in>set pre. \<not> is_digit w c)
             \<and> ds \<noteq> [] \<and> (\<forall>c\<in>set ds. is_digit w c)
             \<and> (rest = [] \<or> \<not> is_digit w (hd rest))
             \<and> \<not> (\<exists>d r. rest = 0x2E # d # r \<and> is_digit w d) \<longrightarrow>
           score (score_response w (Returned 200 msg raw tokens, t) m) = of_nat (digits_value w ds))
     \<and> (\<forall>pre ds fs rest.
           raw = pre @ ds @ [0x2E] @ fs @ rest \<and> (\<forall>c\<in>set pre. \<not> is_digit w c)
             \<and> ds \<noteq> [] \<and> (\<forall>c\<in>set ds. is_digit w c) \<and> \<not> is_digit w 0x2E
             \<and> fs \<noteq> [] \<and> (\<forall>c\<in>set fs. is_digit w c)
             \<and> (rest = [] \<or> \<not> is_digit w (hd rest)) \<longrightarrow>
           score (score_response w (Returned 200 msg raw tokens, t) m)
             = of_nat (digits_value w ds) + of_nat (digits_value w fs) / 10 ^ length fs)
     \<and> (raw = ascii ''I'd say about 78 out of 100, solid work''
           \<and> (\<forall>c<128. decimal_digit w c = ascii_digit c) \<longrightarrow>
           score (score_response w (Returned 200 msg raw tokens, t) m) = 78
           \<and> comment (score_response w (Returned 200 msg raw tokens, t) m) = JStr raw)"
proof -
  note fb = score_response_fallback[OF assms, of msg tokens t m]
  have c1: "comment (score_response w (Returned 200 msg raw tokens, t) m)
           = JStr (if length raw \<le> 100 then raw else take 100 raw @ ascii ''...'')"
    by (simp add: fb ellipsis_def)
  have c2: "score (score_response w (Returned 200 msg raw tokens, t) m) = 0"
    if "\<forall>c\<in>set raw. \<not> is_digit w c"
    using re_search_no_digit[OF that] by (simp add: fb)
  have c3: "score (score_response w (Returned 200 msg raw tokens, t) m) = of_nat (digits_value w ds)"
    if h: "raw = pre @ ds @ rest" "\<forall>c\<in>set pre. \<not> is_digit w c" "ds \<noteq> []"
      "\<forall>c\<in>set ds. is_digit w c" "rest = [] \<or> \<not> is_digit w (hd rest)"
      "\<not> (\<exists>d r. rest = 0x2E # d # r \<and> is_digit w d)" for pre ds rest
  proof -
    have ne: "ds @ rest \<noteq> []" "is_digit w (hd (ds @ rest))" using h(3,4) by (cases ds; simp)+
    have "re_search w raw = Some (ds, None)"
      unfolding h(1) re_search_skip[OF h(2)] re_search_digit[OF ne]
        match_here_integer[OF h(4,5,6)] ..
    then show ?thesis by (simp add: fb float_of_match_def)
  qed
  have c4: "score (score_response w (Returned 200 msg raw tokens, t) m)
             = of_nat (digits_value w ds) + of_nat (digits_value w fs) / 10 ^ length fs"
    if h: "raw = pre @ ds @ [0x2E] @ fs @ rest" "\<forall>c\<in>set pre. \<not> is_digit w c" "ds \<noteq> []"
      "\<forall>c\<in>set ds. is_digit w c" "\<not> is_digit w 0x2E" "fs \<noteq> []" "\<forall>c\<in>set fs. is_digit w c"
      "rest = [] \<or> \<not> is_digit w (hd rest)" for pre ds fs rest
  proof -
    have ne: "ds @ [0x2E] @ fs @ rest \<noteq> []" "is_digit w (hd (ds @ [0x2E] @ fs @ rest))"
      using h(3,4) by (cases ds; simp)+
    have "re_search w raw = Some (ds, Some fs)"
      unfolding h(1) re_search_skip[OF h(2)] re_search_digit[OF ne]
        match_here_fraction[OF h(4,5,6,7,8)] ..
    then show ?thesis by (simp add: fb float_of_match_def)
  qed
  have c5: "score (score_response w (Returned 200 msg raw tokens, t) m) = 78
           \<and> comment (score_response w (Returned 200 msg raw tokens, t) m) = JStr raw"
    if h: "raw = ascii ''I'd say about 78 out of 100, solid work''"
      "\<forall>c<128. decimal_digit w c = ascii_digit c"
  proof -
    have len: "length raw \<le> 100" unfolding h(1) by (simp add: ascii_def)
    have "re_search w raw = Some (ascii ''78'', None)"
      unfolding h(1) by (rule example_text_score(1)[OF h(2)])
    then have "score (score_response w (Returned 200 msg raw tokens, t) m) = 78"
      by (simp add: fb example_text_score(2)[OF h(2)])
    moreover have "comment (score_response w (Returned 200 msg raw tokens, t) m) = JStr raw"
      using len by (simp add: c1)
    ultimately show ?thesis ..
  qed
  from c1 c2 c3 c4 c5 show ?thesis by blast
qed

theorem score_fallback_witness:
  "score (score_response (example_world all_up_answers all_up_scorings)
      (Returned 200 [] (ascii ''I'd say about 78 out of 100, solid work'') None, 1) DASHSCOPE_QWEN) = 78
   \<and> comment (score_response (example_world all_up_answers all_up_scorings)
      (Returned 200 [] (ascii ''I'd say about 78 out of 100, solid work'') None, 1) DASHSCOPE_QWEN)
       = JStr (ascii ''I'd say about 78 out of 100, solid work'')"
proof -
  let ?w = "example_world all_up_answers all_up_scorings"
  have l: "loads ?w (ascii ''I'd say about 78 out of 100, solid work'') = None"
    by (simp add: example_world_def)
  have tab: "\<forall>c<128. decimal_digit ?w c = ascii_digit c"
    by (simp add: example_world_def)
  from score_fallback[OF l, of "[]" None 1 DASHSCOPE_QWEN] tab show ?thesis by blast
qed

theorem score_fallback_counterexample:
  "loads (example_world all_up_answers all_up_scorings) (replicate 101 97) = None
   \<and> comment (score_response (example_world all_up_answers all_up_scorings)
        (Returned 200 [] (replicate 101 97) None, 1) DASHSCOPE_QWEN)
       = JStr (replicate 100 97 @ ascii ''...'')
   \<and> length (replicate 100 (97::nat) @ ascii ''...'') = 103"
proof -
  let ?w = "example_world all_up_answers all_up_scorings"
  have l: "loads ?w (replicate 101 97) = None" by (simp add: example_world_def)
  have c: "comment (score_response ?w (Returned 200 [] (replicate 101 97) None, 1) DASHSCOPE_QWEN)
       = JStr (replicate 100 97 @ ascii ''...'')"
    by (simp add: score_response_fallback[OF l] ellipsis_def)
  have n: "length (replicate 100 (97::nat) @ ascii ''...'') = 103" by (simp add: ascii_def)
  from l c n show ?thesis by blast
qed

end
